theory Spec2Isabelle
  imports Main "HOL-Library.AList" "HOL-Library.Sublist"
begin

section \<open>The tick driver of \<^verbatim>\<open>src/javascript/main.js\<close>\<close>

text \<open>
  The file exports one function, \<^verbatim>\<open>module.exports.loop\<close> (the specification calls it
  \<^verbatim>\<open>onTick\<close>), over two module-level variables, \<^verbatim>\<open>wasm_module\<close> and \<^verbatim>\<open>pause\<close>.
  It reads and writes objects of the host: \<^verbatim>\<open>Memory.creeps\<close>, \<^verbatim>\<open>Game.creeps\<close>,
  \<^verbatim>\<open>Game.cpu\<close>, \<^verbatim>\<open>require\<close> and its cache, \<^verbatim>\<open>console.log\<close> and \<^verbatim>\<open>Game.notify\<close>.
  The embedding passes both states explicitly and returns, next to them, how the call
  completed: normally, or by an exception that leaves the function.
\<close>

subsection \<open>Values and completions\<close>

text \<open>
  The JavaScript values that reach the failure handler. A \<^verbatim>\<open>throw\<close> statement accepts any
  value. The handler does three things with the value: it passes it to \<^verbatim>\<open>console.log\<close>,
  it converts it to a string (inside \<^verbatim>\<open>join\<close>), and it reads its \<^verbatim>\<open>stack\<close> property.
  The model has \<^verbatim>\<open>undefined\<close>, \<^verbatim>\<open>null\<close>, strings, Error objects (given by the text
  their \<^verbatim>\<open>toString()\<close> yields and by their \<^verbatim>\<open>stack\<close> when they have one), symbols, and
  any other value, given by what its string conversion yields (a text, or a thrown
  value) and by what reading its \<^verbatim>\<open>stack\<close> yields (a value, or a thrown value).
  \<^verbatim>\<open>Object.create(null)\<close> is \<open>JObject (Inl e) (Inr JUndefined)\<close> with \<open>e\<close> a TypeError; the
  number 42 is \<open>JObject (Inr ''42'') (Inr JUndefined)\<close>.
\<close>

datatype js_value =
    JUndefined
  | JNull
  | JString string
  | JError string "string option"
  | JSymbol
  | JObject "js_value + string" "js_value + js_value"

datatype completion = Normal | Throw js_value

subsection \<open>The agent module\<close>

text \<open>
  The module is an external collaborator, used through three capabilities. The driver
  observes of a call only whether it returns or throws, and what it throws. A module
  instance is its behaviour together with the calls made on it so far; the behaviour
  decides the next call from that history (\<open>None\<close>: the call returns, \<open>Some v\<close>: it
  throws \<open>v\<close>), which covers every deterministic module. What a capability does to the
  host's objects on its own account is the module's business and is not part of the driver.
\<close>

datatype capability = Initialize_instance | Setup | Loop

type_synonym call_record = "capability \<times> js_value option"

type_synonym module_behaviour = "call_record list \<Rightarrow> capability \<Rightarrow> js_value option"

record module_instance =
  behaviour :: module_behaviour
  calls :: "call_record list"

definition fresh_instance :: "module_behaviour \<Rightarrow> module_instance" where
  "fresh_instance b = \<lparr>behaviour = b, calls = []\<rparr>"

subsection \<open>Driver state and host state\<close>

text \<open>
  \<^verbatim>\<open>let wasm_module; let pause = false;\<close> An unset or \<^verbatim>\<open>null\<close> \<^verbatim>\<open>wasm_module\<close> is
  \<open>None\<close>; a module object is truthy.
\<close>

record driver =
  wasm_module :: "module_instance option"
  pause :: bool

definition initial_driver :: driver where
  "initial_driver = \<lparr>wasm_module = None, pause = False\<rparr>"

text \<open>What the driver does to the host, in the order it does it.\<close>

datatype event =
    Console_log "js_value list"
  | Game_notify string
  | Cache_delete string
  | Require string
  | Call capability

text \<open>
  The host objects. \<^verbatim>\<open>Memory.creeps\<close> is enumerated by \<^verbatim>\<open>for ... in\<close>, so it is an
  association list. \<^verbatim>\<open>Game.creeps\<close> is a plain object, given by its own entries; its
  handles are objects, hence truthy. Of \<^verbatim>\<open>Game.cpu\<close> the driver reads the number
  \<^verbatim>\<open>bucket\<close> and the text \<^verbatim>\<open>JSON.stringify\<close> gives for the whole object.
  \<open>require_loads\<close> is what evaluating the module's code yields when \<^verbatim>\<open>require\<close> misses
  the cache: an exception or a module.
\<close>

record ('v, 'h) host =
  Memory_creeps :: "(string \<times> 'v) list"
  Game_creeps :: "string \<rightharpoonup> 'h"
  Game_cpu_bucket :: int
  Game_cpu_json :: string
  require_cache :: "string \<rightharpoonup> module_instance"
  require_loads :: "js_value + module_behaviour"
  trace :: "event list"

type_synonym ('v, 'h) outcome = "completion \<times> driver \<times> ('v, 'h) host"

definition completion_of :: "('v, 'h) outcome \<Rightarrow> completion" where
  "completion_of r = fst r"

definition driver_of :: "('v, 'h) outcome \<Rightarrow> driver" where
  "driver_of r = fst (snd r)"

definition host_of :: "('v, 'h) outcome \<Rightarrow> ('v, 'h) host" where
  "host_of r = snd (snd r)"

definition emit :: "event \<Rightarrow> ('v, 'h) host \<Rightarrow> ('v, 'h) host" where
  "emit e h = h\<lparr>trace := trace h @ [e]\<rparr>"

subsection \<open>Host operations\<close>

text \<open>\<^verbatim>\<open>const MODULE_NAME = "screeps-rs";\<close>\<close>

definition MODULE_NAME :: string where
  "MODULE_NAME = ''screeps-rs''"

text \<open>
  A TypeError of the engine (its wording and stack are not modelled).
\<close>

definition type_error :: js_value where
  "type_error = JError ''TypeError'' None"

text \<open>
  \<^verbatim>\<open>Array.prototype.join\<close>: \<^verbatim>\<open>undefined\<close> and \<^verbatim>\<open>null\<close> elements give the empty string,
  any other element its string conversion. The conversion of a symbol throws a
  TypeError; the conversion of an object runs its \<^verbatim>\<open>toString\<close>, which can throw or
  be missing. An exception of a conversion leaves \<^verbatim>\<open>join\<close>.
\<close>

fun join_element :: "js_value \<Rightarrow> js_value + string" where
  "join_element JUndefined = Inr ''''"
| "join_element JNull = Inr ''''"
| "join_element (JString s) = Inr s"
| "join_element (JError text st) = Inr text"
| "join_element JSymbol = Inl type_error"
| "join_element (JObject conversion st) = conversion"

fun join :: "js_value list \<Rightarrow> string \<Rightarrow> js_value + string" where
  "join [] sep = Inr ''''"
| "join [x] sep = join_element x"
| "join (x # y # xs) sep =
     (case join_element x of
        Inl e \<Rightarrow> Inl e
      | Inr s \<Rightarrow> (case join (y # xs) sep of Inl e \<Rightarrow> Inl e | Inr r \<Rightarrow> Inr (s @ sep @ r)))"

text \<open>
  The property read \<^verbatim>\<open>error.stack\<close>. On \<^verbatim>\<open>undefined\<close> and \<^verbatim>\<open>null\<close> a property read
  throws a TypeError; a string and a symbol have no such property; an Error object has
  the stack the engine recorded, if any; on another object the read yields what the
  object has there, or throws what its getter throws.
\<close>

fun get_stack :: "js_value \<Rightarrow> js_value + js_value" where
  "get_stack JUndefined = Inl type_error"
| "get_stack JNull = Inl type_error"
| "get_stack (JString s) = Inr JUndefined"
| "get_stack (JError text st) = Inr (case st of None \<Rightarrow> JUndefined | Some s \<Rightarrow> JString s)"
| "get_stack JSymbol = Inr JUndefined"
| "get_stack (JObject conversion st) = st"

text \<open>
  The property read \<^verbatim>\<open>Game.creeps[i]\<close>, tested for truthiness. An own entry is a unit
  handle, which is truthy. A name that is not an own entry is looked up in
  \<^verbatim>\<open>Object.prototype\<close>, whose properties are functions (and, for \<^verbatim>\<open>__proto__\<close>, the
  prototype object), all truthy. Any other name gives \<^verbatim>\<open>undefined\<close>.
\<close>

definition Object_prototype_names :: "string list" where
  "Object_prototype_names =
     [''constructor'', ''__defineGetter__'', ''__defineSetter__'', ''hasOwnProperty'',
      ''__lookupGetter__'', ''__lookupSetter__'', ''isPrototypeOf'',
      ''propertyIsEnumerable'', ''toString'', ''valueOf'', ''__proto__'',
      ''toLocaleString'']"

definition truthy_property :: "(string \<rightharpoonup> 'h) \<Rightarrow> string \<Rightarrow> bool" where
  "truthy_property obj i =
     (case obj i of Some handle \<Rightarrow> True | None \<Rightarrow> i \<in> set Object_prototype_names)"

text \<open>
  The host's \<^verbatim>\<open>require\<close>, the load-or-fetch operation of the module cache: a cached
  module is returned as it is; otherwise the module's code is evaluated, and when that
  succeeds the new instance is cached and returned.
\<close>

definition require :: "string \<Rightarrow> ('v, 'h) host \<Rightarrow> (js_value + module_instance) \<times> ('v, 'h) host" where
  "require name h =
     (let h1 = emit (Require name) h in
      case require_cache h1 name of
        Some m \<Rightarrow> (Inr m, h1)
      | None \<Rightarrow>
          (case require_loads h1 of
             Inl e \<Rightarrow> (Inl e, h1)
           | Inr b \<Rightarrow>
               (Inr (fresh_instance b),
                h1\<lparr>require_cache := (require_cache h1)(name \<mapsto> fresh_instance b)\<rparr>)))"

text \<open>
  A method call \<^verbatim>\<open>wasm_module.c()\<close>. The call is recorded on the instance with its
  result. On an unset \<^verbatim>\<open>wasm_module\<close> the property read throws.
\<close>

definition invoke :: "capability \<Rightarrow> driver \<Rightarrow> ('v, 'h) host \<Rightarrow> ('v, 'h) outcome" where
  "invoke c d h =
     (case wasm_module d of
        None \<Rightarrow> (Throw type_error, d, h)
      | Some m \<Rightarrow>
          (let r = behaviour m (calls m) c;
               m' = m\<lparr>calls := calls m @ [(c, r)]\<rparr>
           in (case r of None \<Rightarrow> Normal | Some e \<Rightarrow> Throw e,
               d\<lparr>wasm_module := Some m'\<rparr>,
               emit (Call c) h)))"

text \<open>Statement sequencing: what follows a statement runs only when it completed normally.\<close>

definition and_then ::
  "('v, 'h) outcome \<Rightarrow> (driver \<Rightarrow> ('v, 'h) host \<Rightarrow> ('v, 'h) outcome) \<Rightarrow> ('v, 'h) outcome" where
  "and_then r f = (case r of (Normal, d, h) \<Rightarrow> f d h | (Throw e, d, h) \<Rightarrow> (Throw e, d, h))"

subsection \<open>The source functions\<close>

text \<open>
  \<^verbatim>\<open>function console_error(...args) { console.log(...args); Game.notify(args.join(' ')); }\<close>
  When \<^verbatim>\<open>join\<close> throws, the line has been logged and nothing is notified.
\<close>

definition console_error :: "js_value list \<Rightarrow> ('v, 'h) host \<Rightarrow> completion \<times> ('v, 'h) host" where
  "console_error args h =
     (let h1 = emit (Console_log args) h
      in case join args '' '' of
           Inl e \<Rightarrow> (Throw e, h1)
         | Inr text \<Rightarrow> (Normal, emit (Game_notify text) h1))"

text \<open>
  \<^verbatim>\<open>for (var i in Memory.creeps) { if (!Game.creeps[i]) { delete Memory.creeps[i]; } }\<close>
  The loop visits the keys the object had when it started.
\<close>

fun clean_up_dead_creeps ::
  "string list \<Rightarrow> (string \<rightharpoonup> 'h) \<Rightarrow> (string \<times> 'v) list \<Rightarrow> (string \<times> 'v) list" where
  "clean_up_dead_creeps [] live mem = mem"
| "clean_up_dead_creeps (i # keys) live mem =
     clean_up_dead_creeps keys live
       (if \<not> truthy_property live i then AList.delete i mem else mem)"

definition clean_up :: "('v, 'h) host \<Rightarrow> ('v, 'h) host" where
  "clean_up h =
     h\<lparr>Memory_creeps :=
         clean_up_dead_creeps (map fst (Memory_creeps h)) (Game_creeps h) (Memory_creeps h)\<rparr>"

text \<open>The body of the \<^verbatim>\<open>try\<close> block, lines 26 to 47.\<close>

definition running_out_of_time :: string where
  "running_out_of_time = ''we are running out of time, pausing compile!''"

definition cold_start :: "driver \<Rightarrow> ('v, 'h) host \<Rightarrow> ('v, 'h) outcome" where
  "cold_start d h =
     (let h1 = (if MODULE_NAME \<in> dom (require_cache h)
                then emit (Cache_delete MODULE_NAME)
                       (h\<lparr>require_cache := (require_cache h)(MODULE_NAME := None)\<rparr>)
                else h)
      in case require MODULE_NAME h1 of
           (Inl e, h2) \<Rightarrow> (Throw e, d, h2)
         | (Inr m, h2) \<Rightarrow>
             and_then (and_then (invoke Initialize_instance (d\<lparr>wasm_module := Some m\<rparr>) h2)
                                (invoke Setup))
                      (invoke Loop))"

definition try_block :: "driver \<Rightarrow> ('v, 'h) host \<Rightarrow> ('v, 'h) outcome" where
  "try_block d h =
     (if wasm_module d \<noteq> None then invoke Loop d h
      else if Game_cpu_bucket h < 500
      then (Normal, d, emit (Console_log [JString (running_out_of_time @ Game_cpu_json h)]) h)
      else cold_start d h)"

text \<open>The \<^verbatim>\<open>catch\<close> block, lines 48 to 54. Its statements can throw themselves.\<close>

definition resetting :: string where
  "resetting = ''resetting VM next tick.''"

definition catch_block :: "js_value \<Rightarrow> driver \<Rightarrow> ('v, 'h) host \<Rightarrow> ('v, 'h) outcome" where
  "catch_block error d h =
     (case console_error [JString resetting] h of
        (Throw e, h1) \<Rightarrow> (Throw e, d, h1)
      | (Normal, h1) \<Rightarrow>
          (case console_error [error] h1 of
             (Throw e, h2) \<Rightarrow> (Throw e, d, h2)
           | (Normal, h2) \<Rightarrow>
               (case get_stack error of
                  Inl e \<Rightarrow> (Throw e, d, h2)
                | Inr stack \<Rightarrow>
                    (case console_error [stack] h2 of
                       (Throw e, h3) \<Rightarrow> (Throw e, d, h3)
                     | (Normal, h3) \<Rightarrow>
                         (Normal, d\<lparr>wasm_module := None, pause := False\<rparr>, h3)))))"

text \<open>\<^verbatim>\<open>module.exports.loop\<close>, the specification's \<^verbatim>\<open>onTick()\<close>.\<close>

definition module_exports_loop :: "driver \<Rightarrow> ('v, 'h) host \<Rightarrow> ('v, 'h) outcome" where
  "module_exports_loop d h =
     (if pause d then (Normal, d, h)
      else case try_block d (clean_up h) of
             (Normal, d', h') \<Rightarrow> (Normal, d', h')
           | (Throw error, d', h') \<Rightarrow> catch_block error d' h')"

text \<open>
  A run of ticks. Between two calls the host may change every object it owns, so each
  tick is given the host state it runs in; the two variables of the driver persist.
\<close>

fun ticks :: "driver \<Rightarrow> ('v, 'h) host list \<Rightarrow> driver" where
  "ticks d [] = d"
| "ticks d (h # hs) = ticks (driver_of (module_exports_loop d h)) hs"

subsection \<open>Notions used in the statements\<close>

text \<open>
  Events that touch the module or the module cache, as opposed to output on the logging
  and notification channels.
\<close>

fun module_interaction :: "event \<Rightarrow> bool" where
  "module_interaction (Console_log args) = False"
| "module_interaction (Game_notify text) = False"
| "module_interaction (Cache_delete name) = True"
| "module_interaction (Require name) = True"
| "module_interaction (Call c) = True"

text \<open>The messages sent with \<^verbatim>\<open>Game.notify\<close>, in order.\<close>

fun notifications :: "event list \<Rightarrow> string list" where
  "notifications [] = []"
| "notifications (Game_notify text # es) = text # notifications es"
| "notifications (e # es) = notifications es"

text \<open>
  The lines written with \<^verbatim>\<open>console.log\<close>, in order: the text of a line is the string
  conversion of each argument, separated by blanks.
\<close>

fun to_String :: "js_value \<Rightarrow> string" where
  "to_String JUndefined = ''undefined''"
| "to_String JNull = ''null''"
| "to_String (JString s) = s"
| "to_String (JError text st) = text"
| "to_String JSymbol = ''Symbol()''"
| "to_String (JObject conversion st) = (case conversion of Inl e \<Rightarrow> ''[object]'' | Inr s \<Rightarrow> s)"

fun spaced :: "string list \<Rightarrow> string" where
  "spaced [] = ''''"
| "spaced [s] = s"
| "spaced (s # t # ts) = s @ '' '' @ spaced (t # ts)"

fun console_lines :: "event list \<Rightarrow> string list" where
  "console_lines [] = []"
| "console_lines (Console_log args # es) = spaced (map to_String args) # console_lines es"
| "console_lines (e # es) = console_lines es"

text \<open>What a call added to the trace of the host state it started in.\<close>

definition new_events :: "('v, 'h) host \<Rightarrow> ('v, 'h) outcome \<Rightarrow> event list" where
  "new_events h r = drop (length (trace h)) (trace (host_of r))"

text \<open>
  An instance is fully initialized when the first two calls made on it were
  \<^verbatim>\<open>initialize_instance()\<close> and then \<^verbatim>\<open>setup()\<close>, and both returned.
\<close>

definition fully_initialized :: "module_instance \<Rightarrow> bool" where
  "fully_initialized m = (take 2 (calls m) = [(Initialize_instance, None), (Setup, None)])"

text \<open>The invariant of the data model: no module, or a fully initialized one.\<close>

definition unset_or_initialized :: "driver \<Rightarrow> bool" where
  "unset_or_initialized d =
     (case wasm_module d of None \<Rightarrow> True | Some m \<Rightarrow> fully_initialized m)"

subsection \<open>Example inputs\<close>

definition well_behaved :: module_behaviour where
  "well_behaved hist c = None"

definition throws_in :: "capability \<Rightarrow> js_value \<Rightarrow> module_behaviour" where
  "throws_in c v hist c' = (if c' = c then Some v else None)"

text \<open>
  Two records in memory, one live unit, a full bucket, an empty module cache, and a
  module that loads and never throws.
\<close>

definition example_host :: "(nat, unit) host" where
  "example_host =
     \<lparr>Memory_creeps = [(''a'', 1), (''b'', 2)],
      Game_creeps = [''a'' \<mapsto> ()],
      Game_cpu_bucket = 1000,
      Game_cpu_json = ''{}'',
      require_cache = Map.empty,
      require_loads = Inr well_behaved,
      trace = []\<rparr>"

definition paused_driver :: driver where
  "paused_driver = \<lparr>wasm_module = None, pause = True\<rparr>"

definition scarce_host :: "(nat, unit) host" where
  "scarce_host = example_host\<lparr>Game_cpu_bucket := 499\<rparr>"

definition loaded_driver :: driver where
  "loaded_driver =
     \<lparr>wasm_module = Some \<lparr>behaviour = well_behaved,
                          calls = [(Initialize_instance, None), (Setup, None), (Loop, None)]\<rparr>,
      pause = False\<rparr>"

text \<open>An instance is loaded whose \<^verbatim>\<open>loop()\<close> throws an Error object with a stack.\<close>

definition failing_loaded_driver :: driver where
  "failing_loaded_driver =
     \<lparr>wasm_module =
        Some \<lparr>behaviour = throws_in Loop (JError ''Error: out of range''
                                                (Some ''Error: out of range at loop'')),
              calls = [(Initialize_instance, None), (Setup, None)]\<rparr>,
      pause = False\<rparr>"

text \<open>The module cache holds an instance from an earlier load.\<close>

definition stale_cache_host :: "(nat, unit) host" where
  "stale_cache_host =
     example_host\<lparr>require_cache :=
       [MODULE_NAME \<mapsto> \<lparr>behaviour = throws_in Loop JNull,
                            calls = [(Initialize_instance, None)]\<rparr>]\<rparr>"

text \<open>The module's \<^verbatim>\<open>setup()\<close> does \<^verbatim>\<open>throw "boom"\<close>.\<close>

definition boom_host :: "(nat, unit) host" where
  "boom_host = example_host\<lparr>require_loads := Inr (throws_in Setup (JString ''boom''))\<rparr>"

text \<open>The module's \<^verbatim>\<open>loop()\<close> does \<^verbatim>\<open>throw undefined\<close>.\<close>

definition undefined_loop_host :: "(nat, unit) host" where
  "undefined_loop_host = example_host\<lparr>require_loads := Inr (throws_in Loop JUndefined)\<rparr>"

text \<open>The module's \<^verbatim>\<open>setup()\<close> does \<^verbatim>\<open>throw null\<close>.\<close>

definition null_setup_host :: "(nat, unit) host" where
  "null_setup_host = example_host\<lparr>require_loads := Inr (throws_in Setup JNull)\<rparr>"

text \<open>The host state that the first call with this module leaves behind.\<close>

definition after_null_setup :: "(nat, unit) host" where
  "after_null_setup = host_of (module_exports_loop initial_driver null_setup_host)"

text \<open>
  The memory has a record under a name that every plain object inherits, and no unit
  is alive.
\<close>

definition inherited_name_host :: "(nat, unit) host" where
  "inherited_name_host =
     example_host\<lparr>Memory_creeps := [(''constructor'', 1), (''b'', 2)],
                  Game_creeps := Map.empty\<rparr>"

text \<open>The module's \<^verbatim>\<open>loop()\<close> does \<^verbatim>\<open>throw Symbol()\<close>.\<close>

definition symbol_loop_host :: "(nat, unit) host" where
  "symbol_loop_host = example_host\<lparr>require_loads := Inr (throws_in Loop JSymbol)\<rparr>"

section \<open>Properties\<close>

subsection \<open>Steps of the handler, and fields a step leaves alone\<close>

lemma emit_fields [simp]:
  "trace (emit e h) = trace h @ [e]"
  "Memory_creeps (emit e h) = Memory_creeps h"
  "require_cache (emit e h) = require_cache h"
  "require_loads (emit e h) = require_loads h"
  by (simp_all add: emit_def)

lemma console_error_fields [simp]:
  "Memory_creeps (snd (console_error args h)) = Memory_creeps h"
  "require_cache (snd (console_error args h)) = require_cache h"
  by (simp_all add: console_error_def Let_def split: sum.splits)

lemma console_error_Inr:
  "join args '' '' = Inr msg \<Longrightarrow>
   console_error args h = (Normal, emit (Game_notify msg) (emit (Console_log args) h))"
  by (simp add: console_error_def Let_def)

lemma console_error_Inl:
  "join args '' '' = Inl e \<Longrightarrow> console_error args h = (Throw e, emit (Console_log args) h)"
  by (simp add: console_error_def Let_def)

text \<open>The four ways the handler can end.\<close>

lemma catch_block_join_throws:
  assumes "join_element e = Inl x"
  shows "catch_block e d h =
           (Throw x, d,
            emit (Console_log [e])
              (emit (Game_notify resetting) (emit (Console_log [JString resetting]) h)))"
proof -
  have 1: "join [JString resetting] '' '' = Inr resetting" by simp
  have 2: "join [e] '' '' = Inl x" using assms by simp
  show ?thesis
    unfolding catch_block_def console_error_Inr [OF 1] console_error_Inl [OF 2] by simp
qed

lemma catch_block_stack_throws:
  assumes "join_element e = Inr msg" and "get_stack e = Inl x"
  shows "catch_block e d h =
           (Throw x, d,
            emit (Game_notify msg) (emit (Console_log [e])
              (emit (Game_notify resetting) (emit (Console_log [JString resetting]) h))))"
proof -
  have 1: "join [JString resetting] '' '' = Inr resetting" by simp
  have 2: "join [e] '' '' = Inr msg" using assms(1) by simp
  show ?thesis
    unfolding catch_block_def console_error_Inr [OF 1] console_error_Inr [OF 2] assms(2) by simp
qed

lemma catch_block_stack_join_throws:
  assumes "join_element e = Inr msg" and "get_stack e = Inr stack"
    and "join_element stack = Inl x"
  shows "catch_block e d h =
           (Throw x, d,
            emit (Console_log [stack]) (emit (Game_notify msg) (emit (Console_log [e])
              (emit (Game_notify resetting) (emit (Console_log [JString resetting]) h)))))"
proof -
  have 1: "join [JString resetting] '' '' = Inr resetting" by simp
  have 2: "join [e] '' '' = Inr msg" using assms(1) by simp
  have 3: "join [stack] '' '' = Inl x" using assms(3) by simp
  show ?thesis
    unfolding catch_block_def console_error_Inr [OF 1] console_error_Inr [OF 2] assms(2)
    by (simp add: console_error_Inl [OF 3])
qed

lemma catch_block_completes:
  assumes "join_element e = Inr msg" and "get_stack e = Inr stack"
    and "join_element stack = Inr stack_msg"
  shows "catch_block e d h =
           (Normal, d\<lparr>wasm_module := None, pause := False\<rparr>,
            emit (Game_notify stack_msg) (emit (Console_log [stack])
              (emit (Game_notify msg) (emit (Console_log [e])
                (emit (Game_notify resetting) (emit (Console_log [JString resetting]) h))))))"
proof -
  have 1: "join [JString resetting] '' '' = Inr resetting" by simp
  have 2: "join [e] '' '' = Inr msg" using assms(1) by simp
  have 3: "join [stack] '' '' = Inr stack_msg" using assms(3) by simp
  show ?thesis
    unfolding catch_block_def console_error_Inr [OF 1] console_error_Inr [OF 2] assms(2)
    by (simp add: console_error_Inr [OF 3])
qed

text \<open>
  The shape of every run of the handler: it starts by logging the fixed line, touches
  neither the module nor the cache nor the memory, and resets the two variables exactly
  when it completes normally.
\<close>

lemma catch_block_shape:
  "driver_of (catch_block e d h) =
     (if completion_of (catch_block e d h) = Normal
      then d\<lparr>wasm_module := None, pause := False\<rparr> else d) \<and>
   (\<exists>out. trace (host_of (catch_block e d h)) =
            trace h @ Console_log [JString resetting] # out \<and>
          filter module_interaction out = []) \<and>
   Memory_creeps (host_of (catch_block e d h)) = Memory_creeps h \<and>
   require_cache (host_of (catch_block e d h)) = require_cache h"
proof (cases "join_element e")
  case (Inl x)
  show ?thesis
    by (simp add: catch_block_join_throws [OF Inl] completion_of_def driver_of_def host_of_def)
next
  case (Inr msg)
  show ?thesis
  proof (cases "get_stack e")
    case (Inl x)
    show ?thesis
      by (simp add: catch_block_stack_throws [OF Inr Inl]
            completion_of_def driver_of_def host_of_def)
  next
    case stack: (Inr stack)
    show ?thesis
    proof (cases "join_element stack")
      case (Inl x)
      show ?thesis
        by (simp add: catch_block_stack_join_throws [OF Inr stack Inl]
              completion_of_def driver_of_def host_of_def)
    next
      case stack_msg: (Inr stack_msg)
      show ?thesis
        by (simp add: catch_block_completes [OF Inr stack stack_msg]
              completion_of_def driver_of_def host_of_def)
    qed
  qed
qed

lemma clean_up_fields [simp]:
  "trace (clean_up h) = trace h"
  "require_cache (clean_up h) = require_cache h"
  "require_loads (clean_up h) = require_loads h"
  "Game_cpu_bucket (clean_up h) = Game_cpu_bucket h"
  "Game_cpu_json (clean_up h) = Game_cpu_json h"
  "Game_creeps (clean_up h) = Game_creeps h"
  by (simp_all add: clean_up_def)

lemma and_then_cases:
  "and_then r f = (case completion_of r of Normal \<Rightarrow> f (driver_of r) (host_of r) | Throw e \<Rightarrow> r)"
  by (cases r)
     (auto simp: and_then_def completion_of_def driver_of_def host_of_def split: completion.splits)

subsection \<open>The cleanup loop\<close>

lemma clean_up_dead_creeps_filter:
  "clean_up_dead_creeps keys live mem =
     filter (\<lambda>(k, v). k \<notin> set keys \<or> truthy_property live k) mem"
proof (induction keys arbitrary: mem)
  case Nil
  show ?case by simp
next
  case (Cons i keys)
  show ?case
    by (auto simp: Cons.IH AList.delete_eq intro!: filter_cong)
qed

lemma Memory_creeps_clean_up:
  "Memory_creeps (clean_up h) =
     filter (\<lambda>(k, v). truthy_property (Game_creeps h) k) (Memory_creeps h)"
proof -
  have "filter (\<lambda>(k, v). k \<notin> set (map fst (Memory_creeps h)) \<or>
                         truthy_property (Game_creeps h) k)
          (Memory_creeps h) =
        filter (\<lambda>(k, v). truthy_property (Game_creeps h) k) (Memory_creeps h)"
    by (rule filter_cong) force+
  then show ?thesis
    by (simp add: clean_up_def clean_up_dead_creeps_filter)
qed

lemma map_of_filter_key:
  "map_of (filter (\<lambda>(k, v). P k) xs) i = (if P i then map_of xs i else None)"
  by (induction xs) auto

text \<open>After the cleanup the driver does not write \<^verbatim>\<open>Memory.creeps\<close> again.\<close>

lemma invoke_Memory: "Memory_creeps (host_of (invoke c d h)) = Memory_creeps h"
  by (simp add: invoke_def host_of_def Let_def split: option.splits)

lemma and_then_invoke_Memory:
  "Memory_creeps (host_of (and_then r (invoke c))) = Memory_creeps (host_of r)"
  by (simp add: and_then_cases invoke_Memory split: completion.splits)

lemma require_Memory: "Memory_creeps (snd (require n h)) = Memory_creeps h"
  by (simp add: require_def Let_def split: option.splits sum.splits)

lemma cold_start_Memory: "Memory_creeps (host_of (cold_start d h)) = Memory_creeps h"
proof -
  let ?h1 = "if MODULE_NAME \<in> dom (require_cache h)
             then emit (Cache_delete MODULE_NAME)
                    (h\<lparr>require_cache := (require_cache h)(MODULE_NAME := None)\<rparr>)
             else h"
  have h1: "Memory_creeps ?h1 = Memory_creeps h" by simp
  obtain res h2 where r: "require MODULE_NAME ?h1 = (res, h2)"
    by (cases "require MODULE_NAME ?h1")
  have h2: "Memory_creeps h2 = Memory_creeps h"
    using require_Memory [of MODULE_NAME ?h1] r h1 by simp
  show ?thesis
  proof (cases res)
    case (Inl e)
    then show ?thesis using r h2 by (simp add: cold_start_def host_of_def Let_def)
  next
    case (Inr m)
    have "cold_start d h =
            and_then (and_then (invoke Initialize_instance (d\<lparr>wasm_module := Some m\<rparr>) h2)
                               (invoke Setup))
                     (invoke Loop)"
      using r Inr by (simp add: cold_start_def Let_def)
    then show ?thesis
      by (simp add: and_then_invoke_Memory invoke_Memory h2)
  qed
qed

lemma try_block_Memory: "Memory_creeps (host_of (try_block d h)) = Memory_creeps h"
  by (simp add: try_block_def invoke_Memory cold_start_Memory) (simp add: host_of_def)

lemma catch_block_Memory: "Memory_creeps (host_of (catch_block e d h)) = Memory_creeps h"
  using catch_block_shape [of e d h] by (auto simp: host_of_def)

lemma loop_Memory:
  assumes "\<not> pause d"
  shows "Memory_creeps (host_of (module_exports_loop d h)) = Memory_creeps (clean_up h)"
proof -
  obtain c d' h' where t: "try_block d (clean_up h) = (c, d', h')"
    by (cases "try_block d (clean_up h)")
  have m: "Memory_creeps h' = Memory_creeps (clean_up h)"
    using try_block_Memory [of d "clean_up h"] t by (simp add: host_of_def)
  show ?thesis
  proof (cases c)
    case Normal
    then show ?thesis using assms t m by (simp add: module_exports_loop_def host_of_def)
  next
    case (Throw e)
    then show ?thesis using assms t m catch_block_Memory [of e d' h']
      by (simp add: module_exports_loop_def)
  qed
qed

text \<open>
  For a key that no plain object inherits, the cleanup does what its comment says: in
  every unpaused call, such a key of the memory is gone at the end when it is absent
  from the live units, and keeps its entry when it is present.
\<close>

lemma memory_hygiene_other_names:
  assumes "\<not> pause d"
  shows "\<forall>i \<in> set (map fst (Memory_creeps h)) - set Object_prototype_names.
           (Game_creeps h i = None \<longrightarrow>
              map_of (Memory_creeps (host_of (module_exports_loop d h))) i = None) \<and>
           (Game_creeps h i \<noteq> None \<longrightarrow>
              map_of (Memory_creeps (host_of (module_exports_loop d h))) i =
              map_of (Memory_creeps h) i)"
proof -
  have "Memory_creeps (host_of (module_exports_loop d h)) =
          filter (\<lambda>(k, v). truthy_property (Game_creeps h) k) (Memory_creeps h)"
    using assms by (simp add: loop_Memory Memory_creeps_clean_up)
  then show ?thesis
    by (auto simp: map_of_filter_key truthy_property_def)
qed

text \<open>
  C3 says that every key of the memory that is absent from the live units is deleted by
  the end of an unpaused call. The test \<^verbatim>\<open>!Game.creeps[i]\<close> misses the names that every
  object inherits. From the initial state, with records under \<^verbatim>\<open>constructor\<close> and
  \<^verbatim>\<open>b\<close> in the memory and no live unit: neither key is among the live units; the
  call deletes \<^verbatim>\<open>b\<close> and keeps \<^verbatim>\<open>constructor\<close>.
\<close>

theorem inherited_name_is_kept:
  "\<not> pause initial_driver \<and>
   Game_creeps inherited_name_host ''constructor'' = None \<and>
   Game_creeps inherited_name_host ''b'' = None \<and>
   Memory_creeps inherited_name_host = [(''constructor'', 1), (''b'', 2)] \<and>
   Memory_creeps (host_of (module_exports_loop initial_driver inherited_name_host)) =
     [(''constructor'', 1)]"
proof -
  have np: "\<not> pause initial_driver" by (simp add: initial_driver_def)
  have "Memory_creeps (clean_up inherited_name_host) = [(''constructor'', 1)]"
    by (simp add: clean_up_def inherited_name_host_def example_host_def truthy_property_def
          Object_prototype_names_def)
  then show ?thesis
    using np by (simp add: loop_Memory) (simp add: inherited_name_host_def example_host_def)
qed

subsection \<open>The pause flag\<close>

text \<open>
  C6. A call made while \<^verbatim>\<open>pause\<close> is true returns at once: the driver state and the
  whole host state, with the memory, the module cache and the trace of log lines,
  notifications and module calls, are what they were.
\<close>

theorem paused_tick_does_nothing:
  "pause d \<Longrightarrow> module_exports_loop d h = (Normal, d, h)"
  by (simp add: module_exports_loop_def)

theorem paused_tick_does_nothing_witness:
  "pause paused_driver \<and> module_exports_loop paused_driver example_host = (Normal, paused_driver, example_host)"
proof -
  have p: "pause paused_driver" by (simp add: paused_driver_def)
  show ?thesis using p paused_tick_does_nothing [OF p, of example_host] by simp
qed

subsection \<open>The budget gate\<close>

text \<open>
  C4. In an unpaused call with no module loaded and a bucket below 500, the call returns
  normally; all it adds to the trace is one log line, so the cache is not evicted and
  nothing is loaded, initialized or run; the module cache is as before and
  \<^verbatim>\<open>wasm_module\<close> is still unset. The only other change is the memory cleanup.
\<close>

theorem budget_gate:
  assumes "\<not> pause d" and "wasm_module d = None" and "Game_cpu_bucket h < 500"
  shows "module_exports_loop d h =
           (Normal, d,
            emit (Console_log [JString (''we are running out of time, pausing compile!'' @
                                        Game_cpu_json h)])
              (clean_up h)) \<and>
         new_events h (module_exports_loop d h) =
           [Console_log [JString (''we are running out of time, pausing compile!'' @
                                  Game_cpu_json h)]] \<and>
         require_cache (host_of (module_exports_loop d h)) = require_cache h \<and>
         wasm_module (driver_of (module_exports_loop d h)) = None"
  using assms
  by (simp add: module_exports_loop_def try_block_def running_out_of_time_def
        new_events_def host_of_def driver_of_def)

theorem budget_gate_witness:
  "\<not> pause initial_driver \<and> wasm_module initial_driver = None \<and>
   Game_cpu_bucket scarce_host < 500 \<and>
   new_events scarce_host (module_exports_loop initial_driver scarce_host) =
     [Console_log [JString (''we are running out of time, pausing compile!'' @
                            Game_cpu_json scarce_host)]] \<and>
   require_cache (host_of (module_exports_loop initial_driver scarce_host)) =
     require_cache scarce_host \<and>
   wasm_module (driver_of (module_exports_loop initial_driver scarce_host)) = None"
proof -
  have a: "\<not> pause initial_driver" and b: "wasm_module initial_driver = None"
    by (simp_all add: initial_driver_def)
  have c: "Game_cpu_bucket scarce_host < 500"
    by (simp add: scarce_host_def example_host_def)
  show ?thesis
    using a b c budget_gate [OF a b c] by blast
qed

subsection \<open>Steady state\<close>

lemma invoke_Some:
  "wasm_module d = Some m \<Longrightarrow>
   invoke c d h =
     (case behaviour m (calls m) c of None \<Rightarrow> Normal | Some e \<Rightarrow> Throw e,
      d\<lparr>wasm_module := Some (m\<lparr>calls := calls m @ [(c, behaviour m (calls m) c)]\<rparr>)\<rparr>,
      emit (Call c) h)"
  by (simp add: invoke_def Let_def)

lemma catch_block_trace:
  "\<exists>out. trace (host_of (catch_block e d h)) = trace h @ out \<and>
         filter module_interaction out = [] \<and>
         require_cache (host_of (catch_block e d h)) = require_cache h"
  using catch_block_shape [of e d h] by (auto simp: host_of_def)

text \<open>
  C5. In an unpaused call with a module loaded, the only event of the call that touches
  the module or the module cache is one call of \<^verbatim>\<open>loop()\<close>: there is no call of
  \<^verbatim>\<open>initialize_instance()\<close> or \<^verbatim>\<open>setup()\<close>, no eviction and no load, and the cache
  is as before. This holds whether \<^verbatim>\<open>loop()\<close> returns or throws.
\<close>

theorem steady_state:
  assumes "\<not> pause d" and "wasm_module d = Some m"
  shows "filter module_interaction (new_events h (module_exports_loop d h)) = [Call Loop] \<and>
         require_cache (host_of (module_exports_loop d h)) = require_cache h"
proof (cases "behaviour m (calls m) Loop")
  case None
  then show ?thesis
    using assms
    by (simp add: module_exports_loop_def try_block_def invoke_Some new_events_def host_of_def)
next
  case (Some e)
  let ?d = "d\<lparr>wasm_module := Some (m\<lparr>calls := calls m @ [(Loop, Some e)]\<rparr>)\<rparr>"
  let ?h = "emit (Call Loop) (clean_up h)"
  have run: "module_exports_loop d h = catch_block e ?d ?h"
    using assms Some by (simp add: module_exports_loop_def try_block_def invoke_Some)
  obtain out where out: "trace (host_of (catch_block e ?d ?h)) = trace ?h @ out"
    "filter module_interaction out = []"
    "require_cache (host_of (catch_block e ?d ?h)) = require_cache ?h"
    using catch_block_trace [of e ?d ?h] by blast
  have "new_events h (module_exports_loop d h) = Call Loop # out"
    using run out(1) by (simp add: new_events_def)
  then show ?thesis
    using run out(2,3) by simp
qed

theorem steady_state_witness:
  "\<not> pause loaded_driver \<and> wasm_module loaded_driver \<noteq> None \<and>
   filter module_interaction (new_events example_host (module_exports_loop loaded_driver example_host)) = [Call Loop] \<and>
   require_cache (host_of (module_exports_loop loaded_driver example_host)) = require_cache example_host"
proof -
  have a: "\<not> pause loaded_driver" by (simp add: loaded_driver_def)
  have b: "wasm_module loaded_driver = Some \<lparr>behaviour = well_behaved,
                          calls = [(Initialize_instance, None), (Setup, None), (Loop, None)]\<rparr>"
    by (simp add: loaded_driver_def)
  show ?thesis
    using a b steady_state [OF a b, of example_host] by simp
qed

subsection \<open>The pause flag is never set\<close>

lemma invoke_pause: "pause (driver_of (invoke c d h)) = pause d"
  by (simp add: invoke_def driver_of_def Let_def split: option.splits)

lemma and_then_invoke_pause:
  "pause (driver_of (and_then r (invoke c))) = pause (driver_of r)"
  by (simp add: and_then_cases invoke_pause split: completion.splits)

lemma cold_start_pause: "pause (driver_of (cold_start d h)) = pause d"
proof -
  let ?h1 = "if MODULE_NAME \<in> dom (require_cache h)
             then emit (Cache_delete MODULE_NAME)
                    (h\<lparr>require_cache := (require_cache h)(MODULE_NAME := None)\<rparr>)
             else h"
  obtain res h2 where r: "require MODULE_NAME ?h1 = (res, h2)"
    by (cases "require MODULE_NAME ?h1")
  show ?thesis
  proof (cases res)
    case (Inl e)
    then show ?thesis using r by (simp add: cold_start_def driver_of_def Let_def)
  next
    case (Inr m)
    have "cold_start d h =
            and_then (and_then (invoke Initialize_instance (d\<lparr>wasm_module := Some m\<rparr>) h2)
                               (invoke Setup))
                     (invoke Loop)"
      using r Inr by (simp add: cold_start_def Let_def)
    then show ?thesis
      by (simp add: and_then_invoke_pause invoke_pause)
  qed
qed

lemma try_block_pause: "pause (driver_of (try_block d h)) = pause d"
  by (simp add: try_block_def invoke_pause cold_start_pause) (simp add: driver_of_def)

lemma catch_block_pause: "\<not> pause d \<Longrightarrow> \<not> pause (driver_of (catch_block e d h))"
  using catch_block_shape [of e d h] by (auto simp: driver_of_def split: if_splits)

lemma loop_stays_unpaused:
  assumes "\<not> pause d"
  shows "\<not> pause (driver_of (module_exports_loop d h))"
proof -
  obtain c d' h' where t: "try_block d (clean_up h) = (c, d', h')"
    by (cases "try_block d (clean_up h)")
  have p: "\<not> pause d'"
    using try_block_pause [of d "clean_up h"] t assms by (simp add: driver_of_def)
  show ?thesis
  proof (cases c)
    case Normal
    then show ?thesis using assms t p by (simp add: module_exports_loop_def driver_of_def)
  next
    case (Throw e)
    then show ?thesis using assms t catch_block_pause [OF p, of e h']
      by (simp add: module_exports_loop_def)
  qed
qed

lemma ticks_stay_unpaused: "\<not> pause d \<Longrightarrow> \<not> pause (ticks d hs)"
  by (induction hs arbitrary: d) (simp_all add: loop_stays_unpaused)

text \<open>
  C10. From the initial state, \<^verbatim>\<open>pause\<close> is false after every sequence of calls,
  whatever host states the calls run in: the only assignment to it stores false.
\<close>

theorem pause_never_set: "\<not> pause (ticks initial_driver hs)"
  by (rule ticks_stay_unpaused) (simp add: initial_driver_def)

subsection \<open>Cold start\<close>

lemma require_miss:
  "require_cache h name = None \<Longrightarrow> require_loads h = Inr b \<Longrightarrow>
   require name h =
     (Inr (fresh_instance b),
      (emit (Require name) h)\<lparr>require_cache := (require_cache h)(name \<mapsto> fresh_instance b)\<rparr>)"
  by (simp add: require_def Let_def)

text \<open>
  C1, as amended. In an unpaused call with no module loaded and a bucket of at least 500,
  when the load succeeds and \<^verbatim>\<open>initialize_instance()\<close>, \<^verbatim>\<open>setup()\<close> and \<^verbatim>\<open>loop()\<close>
  of the fresh instance each return: the call returns normally; what it does to the
  module and the cache is, in this order, the eviction of the cached entry if there is
  one, the load, \<^verbatim>\<open>initialize_instance()\<close>, \<^verbatim>\<open>setup()\<close>, \<^verbatim>\<open>loop()\<close>; and
  \<^verbatim>\<open>wasm_module\<close> holds the fresh instance with these three calls made on it.
\<close>

theorem cold_start_sequence:
  assumes "\<not> pause d" and "wasm_module d = None" and "500 \<le> Game_cpu_bucket h"
    and "require_loads h = Inr b"
    and "b [] Initialize_instance = None"
    and "b [(Initialize_instance, None)] Setup = None"
    and "b [(Initialize_instance, None), (Setup, None)] Loop = None"
  shows "completion_of (module_exports_loop d h) = Normal \<and>
         new_events h (module_exports_loop d h) =
           (if MODULE_NAME \<in> dom (require_cache h) then [Cache_delete MODULE_NAME] else []) @
           [Require MODULE_NAME, Call Initialize_instance, Call Setup, Call Loop] \<and>
         wasm_module (driver_of (module_exports_loop d h)) =
           Some \<lparr>behaviour = b,
                 calls = [(Initialize_instance, None), (Setup, None), (Loop, None)]\<rparr> \<and>
         require_cache (host_of (module_exports_loop d h)) =
           (require_cache h)(MODULE_NAME \<mapsto> fresh_instance b)"
proof (cases "MODULE_NAME \<in> dom (require_cache h)")
  case True
  let ?h1 = "emit (Cache_delete MODULE_NAME)
               ((clean_up h)\<lparr>require_cache := (require_cache h)(MODULE_NAME := None)\<rparr>)"
  have "require_cache ?h1 MODULE_NAME = None" and "require_loads ?h1 = Inr b"
    using assms(4) by simp_all
  note req = require_miss [OF this]
  have "cold_start d (clean_up h) =
          (Normal,
           d\<lparr>wasm_module :=
                Some \<lparr>behaviour = b,
                      calls = [(Initialize_instance, None), (Setup, None), (Loop, None)]\<rparr>\<rparr>,
           h\<lparr>Memory_creeps := Memory_creeps (clean_up h),
             require_cache := (require_cache h)(MODULE_NAME \<mapsto> fresh_instance b),
             trace := trace h @ [Cache_delete MODULE_NAME, Require MODULE_NAME,
                                 Call Initialize_instance, Call Setup, Call Loop]\<rparr>)"
    using True assms(5-7)
    by (simp add: cold_start_def req invoke_def and_then_def fresh_instance_def Let_def)
       (simp add: emit_def clean_up_def)
  then show ?thesis
    using assms(1-3) True
    by (simp add: module_exports_loop_def try_block_def
          completion_of_def driver_of_def host_of_def new_events_def)
next
  case False
  have "require_cache (clean_up h) MODULE_NAME = None" and "require_loads (clean_up h) = Inr b"
    using False assms(4) by auto
  note req = require_miss [OF this]
  have "cold_start d (clean_up h) =
          (Normal,
           d\<lparr>wasm_module :=
                Some \<lparr>behaviour = b,
                      calls = [(Initialize_instance, None), (Setup, None), (Loop, None)]\<rparr>\<rparr>,
           h\<lparr>Memory_creeps := Memory_creeps (clean_up h),
             require_cache := (require_cache h)(MODULE_NAME \<mapsto> fresh_instance b),
             trace := trace h @ [Require MODULE_NAME,
                                 Call Initialize_instance, Call Setup, Call Loop]\<rparr>)"
    using False assms(5-7)
    by (simp add: cold_start_def req invoke_def and_then_def fresh_instance_def Let_def)
       (simp add: emit_def clean_up_def)
  then show ?thesis
    using assms(1-3) False
    by (simp add: module_exports_loop_def try_block_def
          completion_of_def driver_of_def host_of_def new_events_def)
qed

theorem cold_start_sequence_witness:
  "\<not> pause initial_driver \<and> wasm_module initial_driver = None \<and>
   500 \<le> Game_cpu_bucket stale_cache_host \<and>
   require_loads stale_cache_host = Inr well_behaved \<and>
   well_behaved [] Initialize_instance = None \<and>
   well_behaved [(Initialize_instance, None)] Setup = None \<and>
   well_behaved [(Initialize_instance, None), (Setup, None)] Loop = None \<and>
   new_events stale_cache_host (module_exports_loop initial_driver stale_cache_host) =
     [Cache_delete ''screeps-rs'', Require ''screeps-rs'',
      Call Initialize_instance, Call Setup, Call Loop] \<and>
   wasm_module (driver_of (module_exports_loop initial_driver stale_cache_host)) =
     Some \<lparr>behaviour = well_behaved,
           calls = [(Initialize_instance, None), (Setup, None), (Loop, None)]\<rparr>"
proof -
  have a: "\<not> pause initial_driver" and b: "wasm_module initial_driver = None"
    by (simp_all add: initial_driver_def)
  have c: "500 \<le> Game_cpu_bucket stale_cache_host"
    and l: "require_loads stale_cache_host = Inr well_behaved"
    and k: "MODULE_NAME \<in> dom (require_cache stale_cache_host)"
    by (simp_all add: stale_cache_host_def example_host_def)
  have i: "well_behaved [] Initialize_instance = None"
    and s: "well_behaved [(Initialize_instance, None)] Setup = None"
    and t: "well_behaved [(Initialize_instance, None), (Setup, None)] Loop = None"
    by (simp_all add: well_behaved_def)
  show ?thesis
    using a b c l i s t k cold_start_sequence [OF a b c l i s t]
    by (simp add: MODULE_NAME_def)
qed

text \<open>
  C1 as stated fails when a step throws: with \<^verbatim>\<open>setup()\<close> throwing \<^verbatim>\<open>"boom"\<close>,
  \<^verbatim>\<open>loop()\<close> is not called and no instance is retained.
\<close>

theorem cold_start_sequence_counterexample:
  "\<not> pause initial_driver \<and> wasm_module initial_driver = None \<and>
   500 \<le> Game_cpu_bucket boom_host \<and>
   filter module_interaction (new_events boom_host (module_exports_loop initial_driver boom_host)) =
     [Require ''screeps-rs'', Call Initialize_instance, Call Setup] \<and>
   wasm_module (driver_of (module_exports_loop initial_driver boom_host)) = None"
  by (simp add: initial_driver_def boom_host_def example_host_def throws_in_def
        module_exports_loop_def try_block_def cold_start_def require_def Let_def
        invoke_def and_then_def fresh_instance_def catch_block_def clean_up_def
        MODULE_NAME_def driver_of_def host_of_def new_events_def emit_def console_error_def)

subsection \<open>The failure handler\<close>

lemma notifications_append [simp]:
  "notifications (xs @ ys) = notifications xs @ notifications ys"
  by (induction xs rule: notifications.induct) simp_all

lemma invoke_quiet:
  "\<exists>evs. trace (host_of (invoke c d h)) = trace h @ evs \<and> notifications evs = []"
  by (simp add: invoke_def host_of_def Let_def split: option.splits)

lemma and_then_invoke_quiet:
  assumes "trace (host_of r) = trace h @ evs" and "notifications evs = []"
  shows "\<exists>evs'. trace (host_of (and_then r (invoke c))) = trace h @ evs' \<and>
                notifications evs' = []"
proof (cases "completion_of r")
  case Normal
  obtain more where "trace (host_of (invoke c (driver_of r) (host_of r))) = trace (host_of r) @ more"
    and "notifications more = []"
    using invoke_quiet by blast
  then show ?thesis
    using Normal assms by (simp add: and_then_cases)
next
  case (Throw e)
  then show ?thesis
    using assms by (simp add: and_then_cases)
qed

lemma require_trace: "trace (snd (require n h)) = trace h @ [Require n]"
  by (simp add: require_def Let_def split: option.splits sum.splits)

lemma cold_start_quiet:
  "\<exists>evs. trace (host_of (cold_start d h)) = trace h @ evs \<and> notifications evs = []"
proof -
  let ?h1 = "if MODULE_NAME \<in> dom (require_cache h)
             then emit (Cache_delete MODULE_NAME)
                    (h\<lparr>require_cache := (require_cache h)(MODULE_NAME := None)\<rparr>)
             else h"
  obtain res h2 where r: "require MODULE_NAME ?h1 = (res, h2)"
    by (cases "require MODULE_NAME ?h1")
  have "trace h2 = trace ?h1 @ [Require MODULE_NAME]"
    using require_trace [of MODULE_NAME ?h1] r by simp
  then obtain evs where h2: "trace h2 = trace h @ evs" "notifications evs = []"
    by (cases "MODULE_NAME \<in> dom (require_cache h)") simp_all
  show ?thesis
  proof (cases res)
    case (Inl e)
    then show ?thesis using r h2 by (simp add: cold_start_def host_of_def Let_def)
  next
    case (Inr m)
    have c: "cold_start d h =
            and_then (and_then (invoke Initialize_instance (d\<lparr>wasm_module := Some m\<rparr>) h2)
                               (invoke Setup))
                     (invoke Loop)"
      using r Inr by (simp add: cold_start_def Let_def)
    obtain e1 where 1: "trace (host_of (invoke Initialize_instance (d\<lparr>wasm_module := Some m\<rparr>) h2)) = trace h @ e1"
      "notifications e1 = []"
      using h2 by (simp add: invoke_def host_of_def Let_def)
    obtain e2 where 2: "trace (host_of (and_then (invoke Initialize_instance (d\<lparr>wasm_module := Some m\<rparr>) h2) (invoke Setup))) = trace h @ e2"
      "notifications e2 = []"
      using and_then_invoke_quiet [OF 1] by blast
    show ?thesis
      unfolding c using and_then_invoke_quiet [OF 2] by blast
  qed
qed

lemma try_block_quiet:
  "\<exists>evs. trace (host_of (try_block d h)) = trace h @ evs \<and> notifications evs = []"
  using invoke_quiet [of Loop d h] cold_start_quiet [of d h]
  by (simp add: try_block_def host_of_def)

text \<open>
  The handler completes normally exactly when the two string conversions and the read
  of the stack succeed; it has then logged and notified three times and reset the two
  variables.
\<close>

lemma catch_block_normal:
  assumes "completion_of (catch_block e d h) = Normal"
  shows "\<exists>msg stack stack_msg.
           join [e] '' '' = Inr msg \<and> get_stack e = Inr stack \<and>
           join [stack] '' '' = Inr stack_msg \<and>
           catch_block e d h =
             (Normal, d\<lparr>wasm_module := None, pause := False\<rparr>,
              emit (Game_notify stack_msg) (emit (Console_log [stack])
                (emit (Game_notify msg) (emit (Console_log [e])
                  (emit (Game_notify resetting) (emit (Console_log [JString resetting]) h))))))"
proof (cases "join_element e")
  case (Inl x)
  show ?thesis
    using assms by (simp add: catch_block_join_throws [OF Inl] completion_of_def)
next
  case (Inr msg)
  show ?thesis
  proof (cases "get_stack e")
    case (Inl x)
    show ?thesis
      using assms by (simp add: catch_block_stack_throws [OF Inr Inl] completion_of_def)
  next
    case stack: (Inr stack)
    show ?thesis
    proof (cases "join_element stack")
      case (Inl x)
      show ?thesis
        using assms
        by (simp add: catch_block_stack_join_throws [OF Inr stack Inl] completion_of_def)
    next
      case stack_msg: (Inr stack_msg)
      show ?thesis
        using Inr stack stack_msg catch_block_completes [OF Inr stack stack_msg, of d h]
        by simp
    qed
  qed
qed

lemma catch_block_resets:
  assumes "join [e] '' '' = Inr msg" and "get_stack e = Inr stack"
    and "join [stack] '' '' = Inr stack_msg"
  shows "catch_block e d h =
           (Normal, d\<lparr>wasm_module := None, pause := False\<rparr>,
            emit (Game_notify stack_msg) (emit (Console_log [stack])
              (emit (Game_notify msg) (emit (Console_log [e])
                (emit (Game_notify resetting) (emit (Console_log [JString resetting]) h))))))"
  using assms by (intro catch_block_completes) simp_all

text \<open>
  An exception whose string conversion and stack can be taken, the stack's string
  conversion too, is swallowed, and the module is unset afterwards.
\<close>

lemma failure_is_swallowed:
  assumes "\<not> pause d" and "try_block d (clean_up h) = (Throw error, d', h')"
    and "join [error] '' '' = Inr msg" and "get_stack error = Inr stack"
    and "join [stack] '' '' = Inr stack_msg"
  shows "completion_of (module_exports_loop d h) = Normal \<and>
         wasm_module (driver_of (module_exports_loop d h)) = None \<and>
         \<not> pause (driver_of (module_exports_loop d h))"
proof -
  have "module_exports_loop d h = catch_block error d' h'"
    using assms(1,2) by (simp add: module_exports_loop_def)
  then show ?thesis
    using catch_block_resets [OF assms(3-5), of d' h']
    by (simp add: completion_of_def driver_of_def)
qed

text \<open>
  C8, as amended. When the \<^verbatim>\<open>try\<close> block of an unpaused call throws and the handler
  itself runs to completion, the call sends exactly three notifications: the fixed
  text, the error's text, and the text of the error's stack (empty when it has none).
\<close>

theorem failure_notifications:
  assumes "\<not> pause d" and "try_block d (clean_up h) = (Throw error, d', h')"
    and "completion_of (module_exports_loop d h) = Normal"
  shows "\<exists>msg stack stack_msg.
           join [error] '' '' = Inr msg \<and> get_stack error = Inr stack \<and>
           join [stack] '' '' = Inr stack_msg \<and>
           notifications (new_events h (module_exports_loop d h)) =
             [''resetting VM next tick.'', msg, stack_msg]"
proof -
  have run: "module_exports_loop d h = catch_block error d' h'"
    using assms(1,2) by (simp add: module_exports_loop_def)
  then have "completion_of (catch_block error d' h') = Normal"
    using assms(3) by simp
  then obtain msg stack stack_msg where
    s: "join [error] '' '' = Inr msg" "get_stack error = Inr stack"
       "join [stack] '' '' = Inr stack_msg"
    and c: "catch_block error d' h' =
             (Normal, d'\<lparr>wasm_module := None, pause := False\<rparr>,
              emit (Game_notify stack_msg) (emit (Console_log [stack])
                (emit (Game_notify msg) (emit (Console_log [error])
                  (emit (Game_notify resetting)
                    (emit (Console_log [JString resetting]) h'))))))"
    using catch_block_normal [of error d' h'] by blast
  obtain evs where q: "trace h' = trace h @ evs" "notifications evs = []"
    using try_block_quiet [of d "clean_up h"] assms(2) by (auto simp: host_of_def)
  have "notifications (new_events h (module_exports_loop d h)) =
          [''resetting VM next tick.'', msg, stack_msg]"
    using run c q by (simp add: new_events_def host_of_def resetting_def)
  then show ?thesis using s by blast
qed

theorem failure_notifications_witness:
  "\<not> pause initial_driver \<and>
   completion_of (try_block initial_driver (clean_up boom_host)) = Throw (JString ''boom'') \<and>
   completion_of (module_exports_loop initial_driver boom_host) = Normal \<and>
   join [JString ''boom''] '' '' = Inr ''boom'' \<and>
   get_stack (JString ''boom'') = Inr JUndefined \<and>
   join [JUndefined] '' '' = Inr '''' \<and>
   notifications (new_events boom_host (module_exports_loop initial_driver boom_host)) =
     [''resetting VM next tick.'', ''boom'', '''']"
proof -
  have a: "\<not> pause initial_driver" by (simp add: initial_driver_def)
  obtain d' h' where
    t: "try_block initial_driver (clean_up boom_host) = (Throw (JString ''boom''), d', h')"
    by (simp add: initial_driver_def boom_host_def example_host_def throws_in_def
          try_block_def cold_start_def require_def Let_def invoke_def and_then_def
          fresh_instance_def MODULE_NAME_def)
  have n: "completion_of (module_exports_loop initial_driver boom_host) = Normal"
    using a t
    by (simp add: module_exports_loop_def catch_block_def console_error_def Let_def
          completion_of_def)
  show ?thesis
    using a t n failure_notifications [OF a t n]
    by (auto simp: completion_of_def)
qed

text \<open>
  C8 as stated fails: with \<^verbatim>\<open>setup()\<close> throwing \<^verbatim>\<open>"boom"\<close> three notifications are
  sent, not one.
\<close>

theorem failure_notifications_counterexample:
  "completion_of (try_block initial_driver (clean_up boom_host)) = Throw (JString ''boom'') \<and>
   notifications (new_events boom_host (module_exports_loop initial_driver boom_host)) =
     [''resetting VM next tick.'', ''boom'', '''']"
  by (simp add: initial_driver_def boom_host_def example_host_def throws_in_def
        module_exports_loop_def try_block_def cold_start_def require_def Let_def
        invoke_def and_then_def fresh_instance_def catch_block_def clean_up_def
        MODULE_NAME_def completion_of_def host_of_def new_events_def emit_def console_error_def
        resetting_def)

text \<open>
  C9, as amended. When the \<^verbatim>\<open>try\<close> block of an unpaused call throws, the first thing
  the call does next is to log the fixed line \<^verbatim>\<open>resetting VM next tick.\<close>
\<close>

theorem failure_fixed_line:
  assumes "\<not> pause d" and "try_block d (clean_up h) = (Throw error, d', h')"
  shows "\<exists>rest. new_events h' (module_exports_loop d h) =
           Console_log [JString ''resetting VM next tick.''] # rest"
proof -
  have "module_exports_loop d h = catch_block error d' h'"
    using assms by (simp add: module_exports_loop_def)
  then show ?thesis
    using catch_block_shape [of error d' h']
    by (auto simp: new_events_def host_of_def resetting_def)
qed

theorem failure_fixed_line_witness:
  "\<not> pause failing_loaded_driver \<and>
   completion_of (try_block failing_loaded_driver (clean_up example_host)) =
     Throw (JError ''Error: out of range'' (Some ''Error: out of range at loop'')) \<and>
   hd (new_events (host_of (try_block failing_loaded_driver (clean_up example_host)))
         (module_exports_loop failing_loaded_driver example_host)) =
     Console_log [JString ''resetting VM next tick.'']"
proof -
  have a: "\<not> pause failing_loaded_driver" by (simp add: failing_loaded_driver_def)
  obtain d' h' where t: "try_block failing_loaded_driver (clean_up example_host) =
      (Throw (JError ''Error: out of range'' (Some ''Error: out of range at loop'')), d', h')"
    by (simp add: failing_loaded_driver_def throws_in_def try_block_def Let_def invoke_def)
  show ?thesis
    using a t failure_fixed_line [OF a t]
    by (auto simp: completion_of_def host_of_def)
qed

text \<open>
  C9 as stated fails: no line logged by the failing call contains the text
  \<^verbatim>\<open>resetting next tick\<close>.
\<close>

theorem failure_fixed_line_counterexample:
  "completion_of (try_block initial_driver (clean_up boom_host)) = Throw (JString ''boom'') \<and>
   console_lines (new_events boom_host (module_exports_loop initial_driver boom_host)) =
     [''resetting VM next tick.'', ''boom'', ''undefined''] \<and>
   \<not> list_ex (sublist ''resetting next tick'')
       (console_lines (new_events boom_host (module_exports_loop initial_driver boom_host)))"
proof -
  have l: "console_lines (new_events boom_host (module_exports_loop initial_driver boom_host)) =
     [''resetting VM next tick.'', ''boom'', ''undefined'']"
    and c: "completion_of (try_block initial_driver (clean_up boom_host)) = Throw (JString ''boom'')"
  by (simp_all add: initial_driver_def boom_host_def example_host_def throws_in_def
        module_exports_loop_def try_block_def cold_start_def require_def Let_def
        invoke_def and_then_def fresh_instance_def catch_block_def clean_up_def
        MODULE_NAME_def completion_of_def host_of_def new_events_def emit_def console_error_def
        resetting_def)
  have "\<not> list_ex (sublist ''resetting next tick'')
          [''resetting VM next tick.'', ''boom'', ''undefined'']"
    by (simp add: sublist_Cons_right)
  then show ?thesis using l c by simp
qed

subsection \<open>Thrown values the handler cannot take\<close>

text \<open>
  C2 says that no exception of the module leaves the call and that \<^verbatim>\<open>wasm_module\<close> is
  unset afterwards. The handler uses the thrown value before it resets, and that use
  can throw. From the initial state, with a module whose \<^verbatim>\<open>loop()\<close> throws
  \<^verbatim>\<open>undefined\<close>: the handler's read of \<^verbatim>\<open>error.stack\<close> throws a TypeError, which
  leaves the call, and the two resets after it are not reached, so \<^verbatim>\<open>wasm_module\<close>
  stays set.
\<close>

theorem thrown_undefined_escapes:
  "completion_of (module_exports_loop initial_driver undefined_loop_host) = Throw type_error \<and>
   wasm_module (driver_of (module_exports_loop initial_driver undefined_loop_host)) =
     Some \<lparr>behaviour = throws_in Loop JUndefined,
           calls = [(Initialize_instance, None), (Setup, None), (Loop, Some JUndefined)]\<rparr>"
  by (simp add: initial_driver_def undefined_loop_host_def example_host_def throws_in_def
        module_exports_loop_def try_block_def cold_start_def require_def Let_def
        invoke_def and_then_def fresh_instance_def catch_block_def console_error_def
        MODULE_NAME_def completion_of_def driver_of_def)

text \<open>
  The same happens one statement earlier for a value whose string conversion throws:
  with \<^verbatim>\<open>loop()\<close> throwing a symbol, \<^verbatim>\<open>join\<close> throws inside the second
  \<^verbatim>\<open>console_error\<close>, after one notification.
\<close>

lemma thrown_symbol_escapes:
  "completion_of (module_exports_loop initial_driver symbol_loop_host) = Throw type_error \<and>
   wasm_module (driver_of (module_exports_loop initial_driver symbol_loop_host)) \<noteq> None \<and>
   notifications (new_events symbol_loop_host
     (module_exports_loop initial_driver symbol_loop_host)) = [''resetting VM next tick.'']"
proof -
  obtain d' h' where
    t: "try_block initial_driver (clean_up symbol_loop_host) = (Throw JSymbol, d', h')"
    and d': "wasm_module d' \<noteq> None"
    and h': "trace h' = [Require ''screeps-rs'', Call Initialize_instance, Call Setup, Call Loop]"
    by (simp add: initial_driver_def symbol_loop_host_def example_host_def throws_in_def
          try_block_def cold_start_def require_def Let_def invoke_def and_then_def
          fresh_instance_def MODULE_NAME_def)
  have "module_exports_loop initial_driver symbol_loop_host = catch_block JSymbol d' h'"
    using t by (simp add: module_exports_loop_def initial_driver_def)
  moreover have "join_element JSymbol = Inl type_error" by simp
  note catch_block_join_throws [OF this, of d' h']
  moreover have "trace symbol_loop_host = []"
    by (simp add: symbol_loop_host_def example_host_def)
  ultimately show ?thesis
    using d' h'
    by (simp add: completion_of_def driver_of_def host_of_def new_events_def resetting_def)
qed

text \<open>
  C7 says that between calls \<^verbatim>\<open>wasm_module\<close> is unset or fully initialized. From the
  initial state, with a module whose \<^verbatim>\<open>setup()\<close> throws \<^verbatim>\<open>null\<close>: the first call ends
  by the handler's TypeError with \<^verbatim>\<open>wasm_module\<close> set to the instance on which
  \<^verbatim>\<open>setup()\<close> has failed; the second call runs \<^verbatim>\<open>loop()\<close> on that instance and
  completes normally, and the instance is still there.
\<close>

theorem partially_initialized_module_retained:
  "completion_of (module_exports_loop initial_driver null_setup_host) = Throw type_error \<and>
   map_option calls (wasm_module (ticks initial_driver [null_setup_host])) =
     Some [(Initialize_instance, None), (Setup, Some JNull)] \<and>
   map_option fully_initialized (wasm_module (ticks initial_driver [null_setup_host])) =
     Some False \<and>
   completion_of (module_exports_loop (ticks initial_driver [null_setup_host]) after_null_setup) =
     Normal \<and>
   map_option calls (wasm_module (ticks initial_driver [null_setup_host, after_null_setup])) =
     Some [(Initialize_instance, None), (Setup, Some JNull), (Loop, None)] \<and>
   map_option fully_initialized
     (wasm_module (ticks initial_driver [null_setup_host, after_null_setup])) = Some False"
proof -
  have c1: "completion_of (module_exports_loop initial_driver null_setup_host) = Throw type_error"
    and d1: "driver_of (module_exports_loop initial_driver null_setup_host) =
       \<lparr>wasm_module = Some \<lparr>behaviour = throws_in Setup JNull,
                            calls = [(Initialize_instance, None), (Setup, Some JNull)]\<rparr>,
        pause = False\<rparr>"
    by (simp_all add: initial_driver_def null_setup_host_def example_host_def throws_in_def
        module_exports_loop_def try_block_def cold_start_def require_def Let_def
        invoke_def and_then_def fresh_instance_def catch_block_def console_error_def
        MODULE_NAME_def driver_of_def completion_of_def)
  have two: "module_exports_loop
        \<lparr>wasm_module = Some \<lparr>behaviour = throws_in Setup JNull,
                            calls = [(Initialize_instance, None), (Setup, Some JNull)]\<rparr>,
        pause = False\<rparr> after_null_setup =
      (Normal,
       \<lparr>wasm_module = Some \<lparr>behaviour = throws_in Setup JNull,
                            calls = [(Initialize_instance, None), (Setup, Some JNull), (Loop, None)]\<rparr>,
        pause = False\<rparr>,
       emit (Call Loop) (clean_up after_null_setup))"
    by (simp add: throws_in_def module_exports_loop_def try_block_def Let_def invoke_def)
  show ?thesis
    by (simp add: c1 d1 two) (simp add: driver_of_def completion_of_def fully_initialized_def)
qed

text \<open>
  What does hold: a call that completes normally keeps the invariant. It is lost only
  by a call that the handler's own exception ends.
\<close>

lemma fully_initialized_more_calls:
  "fully_initialized m \<Longrightarrow> fully_initialized (m\<lparr>calls := calls m @ cs\<rparr>)"
  by (cases "calls m"; cases "tl (calls m)") (auto simp: fully_initialized_def)

lemma cold_start_normal:
  assumes "completion_of (cold_start d h) = Normal"
  shows "\<exists>m. wasm_module (driver_of (cold_start d h)) = Some m \<and> fully_initialized m"
proof -
  let ?h1 = "if MODULE_NAME \<in> dom (require_cache h)
             then emit (Cache_delete MODULE_NAME)
                    (h\<lparr>require_cache := (require_cache h)(MODULE_NAME := None)\<rparr>)
             else h"
  have miss: "require_cache ?h1 MODULE_NAME = None" by auto
  show ?thesis
  proof (cases "require_loads ?h1")
    case (Inl e)
    then have "cold_start d h = (Throw e, d, emit (Require MODULE_NAME) ?h1)"
      using miss by (simp add: cold_start_def require_def Let_def)
    then show ?thesis using assms by (simp add: completion_of_def)
  next
    case (Inr b)
    note req = require_miss [OF miss Inr]
    have c: "cold_start d h =
            and_then (and_then (invoke Initialize_instance (d\<lparr>wasm_module := Some (fresh_instance b)\<rparr>)
                                  ((emit (Require MODULE_NAME) ?h1)
                                     \<lparr>require_cache := (require_cache ?h1)(MODULE_NAME \<mapsto> fresh_instance b)\<rparr>))
                               (invoke Setup))
                     (invoke Loop)"
      by (simp add: cold_start_def req Let_def)
    show ?thesis
      using assms unfolding c
      by (auto simp: invoke_def and_then_def fresh_instance_def Let_def completion_of_def
            driver_of_def fully_initialized_def split: option.splits)
  qed
qed

lemma try_block_initialized:
  assumes "unset_or_initialized d" and "completion_of (try_block d h) = Normal"
  shows "unset_or_initialized (driver_of (try_block d h))"
proof (cases "wasm_module d")
  case None
  show ?thesis
  proof (cases "Game_cpu_bucket h < 500")
    case True
    then show ?thesis using None assms(1) by (simp add: try_block_def driver_of_def)
  next
    case False
    then have t: "try_block d h = cold_start d h" using None by (simp add: try_block_def)
    show ?thesis
      using cold_start_normal [of d h] assms(2)
      unfolding t by (auto simp: unset_or_initialized_def)
  qed
next
  case (Some m)
  then have "fully_initialized m" using assms(1) by (simp add: unset_or_initialized_def)
  then have "fully_initialized (m\<lparr>calls := calls m @ [(Loop, behaviour m (calls m) Loop)]\<rparr>)"
    by (rule fully_initialized_more_calls)
  then show ?thesis
    using Some by (simp add: try_block_def invoke_def Let_def driver_of_def unset_or_initialized_def)
qed

lemma catch_block_initialized:
  "completion_of (catch_block e d h) = Normal \<Longrightarrow>
   unset_or_initialized (driver_of (catch_block e d h))"
  using catch_block_shape [of e d h]
  by (auto simp: completion_of_def driver_of_def unset_or_initialized_def)

lemma normal_tick_keeps_initialized:
  assumes "unset_or_initialized d" and "completion_of (module_exports_loop d h) = Normal"
  shows "unset_or_initialized (driver_of (module_exports_loop d h))"
proof (cases "pause d")
  case True
  then show ?thesis using assms(1) by (simp add: module_exports_loop_def driver_of_def)
next
  case False
  obtain c d' h' where t: "try_block d (clean_up h) = (c, d', h')"
    by (cases "try_block d (clean_up h)")
  show ?thesis
  proof (cases c)
    case Normal
    then have "module_exports_loop d h = try_block d (clean_up h)"
      using False t by (simp add: module_exports_loop_def)
    moreover have "completion_of (try_block d (clean_up h)) = Normal"
      using t Normal by (simp add: completion_of_def)
    ultimately show ?thesis
      using try_block_initialized [OF assms(1)] by simp
  next
    case (Throw e)
    then have "module_exports_loop d h = catch_block e d' h'"
      using False t by (simp add: module_exports_loop_def)
    then show ?thesis
      using catch_block_initialized [of e d' h'] assms(2) by simp
  qed
qed

end
